theory Spec2Isabelle
  imports Main "HOL-Library.Char_ord" "HOL-Library.List_Lexorder" "HOL-Library.AList"
begin

section \<open>The matchmaking and relay server\<close>

text \<open>
  The server keeps one module-level array, \<open>waitingQueue\<close>, of the sockets that wait
  for a partner, and registers six handlers on every connected socket. A socket is
  identified by its \<open>id\<close>; the only other property of a socket the handlers read is
  \<open>connected\<close>. The model keeps the queue as the list of the ids of the queued sockets,
  together with the set of the ids of the sockets that are connected. Every connected
  socket is the only member of the room named by its own id, which is the room that
  \<open>socket.to(userId)\<close> addresses.
\<close>

type_synonym sid = string

record server =
  waitingQueue :: "sid list"
  connected :: "sid set"

text \<open>
  What the server sends. An emission is the socket an event is sent to, and the event
  with its payload; \<open>userId\<close> is the first argument of the three relayed events.
\<close>

datatype ('d, 'c) server_event =
    MatchFound sid
  | MatchCancelled
  | WebrtcOffer sid 'd
  | WebrtcAnswer sid 'd
  | WebrtcCandidate sid 'c

type_synonym ('d, 'c) emission = "sid \<times> ('d, 'c) server_event"

text \<open>
  \<open>match:search\<close>. \<open>findIndex\<close> followed by \<open>splice(existingIndex, 1)\<close> removes the
  first entry of the socket, which is \<open>remove1\<close>; \<open>shift\<close> takes the head; \<open>push\<close>
  appends.
\<close>

definition match_search :: "server \<Rightarrow> sid \<Rightarrow> server \<times> ('d, 'c) emission list" where
  "match_search s socket =
     (case remove1 socket (waitingQueue s) of
        [] \<Rightarrow> (s\<lparr>waitingQueue := [socket]\<rparr>, [])
      | peer # rest \<Rightarrow>
          if peer \<in> connected s
          then (s\<lparr>waitingQueue := rest\<rparr>,
                [(socket, MatchFound peer), (peer, MatchFound socket)])
          else (s\<lparr>waitingQueue := rest @ [socket]\<rparr>, []))"

text \<open>\<open>match:cancel\<close>: the removal and the acknowledgement are under the same test.\<close>

definition match_cancel :: "server \<Rightarrow> sid \<Rightarrow> server \<times> ('d, 'c) emission list" where
  "match_cancel s socket =
     (if socket \<in> set (waitingQueue s)
      then (s\<lparr>waitingQueue := remove1 socket (waitingQueue s)\<rparr>, [(socket, MatchCancelled)])
      else (s, []))"

text \<open>
  \<open>socket.to(userId).emit(...)\<close> broadcasts to the sockets of the room \<open>userId\<close>, the
  sending socket excepted: the only possible receiver is the connected socket whose id
  is \<open>userId\<close>, when it is not the sender.
\<close>

definition socket_to :: "server \<Rightarrow> sid \<Rightarrow> sid \<Rightarrow> sid list" where
  "socket_to s socket userId =
     (if userId \<in> connected s \<and> userId \<noteq> socket then [userId] else [])"

definition webrtc_offer_relay ::
  "server \<Rightarrow> sid \<Rightarrow> sid \<Rightarrow> 'd \<Rightarrow> server \<times> ('d, 'c) emission list" where
  "webrtc_offer_relay s socket userId offer =
     (s, map (\<lambda>r. (r, WebrtcOffer socket offer)) (socket_to s socket userId))"

definition webrtc_answer_relay ::
  "server \<Rightarrow> sid \<Rightarrow> sid \<Rightarrow> 'd \<Rightarrow> server \<times> ('d, 'c) emission list" where
  "webrtc_answer_relay s socket userId answer =
     (s, map (\<lambda>r. (r, WebrtcAnswer socket answer)) (socket_to s socket userId))"

definition webrtc_candidate_relay ::
  "server \<Rightarrow> sid \<Rightarrow> sid \<Rightarrow> 'c \<Rightarrow> server \<times> ('d, 'c) emission list" where
  "webrtc_candidate_relay s socket userId candidate =
     (s, map (\<lambda>r. (r, WebrtcCandidate socket candidate)) (socket_to s socket userId))"

text \<open>
  \<open>disconnect\<close>: the socket has left the set of the connected sockets when the handler
  runs; the handler removes its entry from the queue.
\<close>

definition disconnect :: "server \<Rightarrow> sid \<Rightarrow> server \<times> ('d, 'c) emission list" where
  "disconnect s socket =
     (s\<lparr>waitingQueue := remove1 socket (waitingQueue s),
        connected := connected s - {socket}\<rparr>, [])"

text \<open>The events a client sends, and the dispatch to the handler of the event.\<close>

datatype ('d, 'c) client_event =
    MatchSearch
  | MatchCancel
  | SendOffer sid 'd
  | SendAnswer sid 'd
  | SendCandidate sid 'c
  | Disconnect

fun handle :: "server \<Rightarrow> sid \<Rightarrow> ('d, 'c) client_event \<Rightarrow> server \<times> ('d, 'c) emission list" where
  "handle s socket MatchSearch = match_search s socket"
| "handle s socket MatchCancel = match_cancel s socket"
| "handle s socket (SendOffer userId offer) = webrtc_offer_relay s socket userId offer"
| "handle s socket (SendAnswer userId answer) = webrtc_answer_relay s socket userId answer"
| "handle s socket (SendCandidate userId candidate) =
     webrtc_candidate_relay s socket userId candidate"
| "handle s socket Disconnect = disconnect s socket"

text \<open>
  A run of the server: the events are handled one after the other, each to completion.
  Only a connected socket delivers an event, and \<open>disconnect\<close> is the last event of a
  socket: \<open>deliverable\<close> says so of a sequence of events.
\<close>

fun run :: "server \<Rightarrow> (sid \<times> ('d, 'c) client_event) list \<Rightarrow> server" where
  "run s [] = s"
| "run s ((socket, e) # es) = run (fst (handle s socket e)) es"

fun deliverable :: "server \<Rightarrow> (sid \<times> ('d, 'c) client_event) list \<Rightarrow> bool" where
  "deliverable s [] = True"
| "deliverable s ((socket, e) # es) =
     (socket \<in> connected s \<and> deliverable (fst (handle s socket e)) es)"

text \<open>
  The participants that wait for a match, as the specification words it: a participant
  waits from the search that leaves it without a partner until it is paired, cancels or
  disconnects. The set is computed from the events and from what the server sent, not
  from the queue.
\<close>

definition paired :: "('d, 'c) emission list \<Rightarrow> sid set" where
  "paired out = {r. \<exists>p. (r, MatchFound p) \<in> set out}"

fun waiting_after ::
  "sid set \<Rightarrow> sid \<Rightarrow> ('d, 'c) client_event \<Rightarrow> ('d, 'c) emission list \<Rightarrow> sid set" where
  "waiting_after W socket MatchSearch out =
     (if paired out = {} then insert socket W else W - paired out)"
| "waiting_after W socket MatchCancel out = W - {socket}"
| "waiting_after W socket Disconnect out = W - {socket}"
| "waiting_after W socket _ out = W"

fun waiting :: "server \<Rightarrow> sid set \<Rightarrow> (sid \<times> ('d, 'c) client_event) list \<Rightarrow> sid set" where
  "waiting s W [] = W"
| "waiting s W ((socket, e) # es) =
     waiting (fst (handle s socket e)) (waiting_after W socket e (snd (handle s socket e))) es"

definition start :: "sid set \<Rightarrow> server" where
  "start C = \<lparr>waitingQueue = [], connected = C\<rparr>"

text \<open>The invariant of the queue that the handlers keep, for the proofs below.\<close>

definition queue_inv :: "server \<Rightarrow> sid set \<Rightarrow> bool" where
  "queue_inv s W =
     (distinct (waitingQueue s) \<and> set (waitingQueue s) = W \<and> W \<subseteq> connected s)"

section \<open>The peer transport\<close>

text \<open>
  \<open>RTCPeerConnection\<close> is the browser's negotiation object; the clients drive it and
  read \<open>signalingState\<close>, \<open>connectionState\<close>, \<open>localDescription\<close> and
  \<open>remoteDescription\<close>. The model is the offer/answer state machine of the WebRTC
  recommendation without provisional answers and rollback: a call the state machine
  refuses rejects with an error and changes nothing, an accepted call is appended to
  \<open>applied\<close>, the record of what the transport was given, in the order of the calls.
  Session descriptions and candidates are opaque: a description is its \<open>type\<close> (absent
  when the sender left it out) and its text, a candidate is a text.
\<close>

datatype sdp_type = OfferT | AnswerT

record description =
  dtype :: "sdp_type option"
  sdp :: string

type_synonym candidate = string

datatype signaling = Stable | HaveLocalOffer | HaveRemoteOffer | SignalingClosed

datatype connection = New | Connecting | Connected | Disconnected | Failed | ConnectionClosed

datatype rtc_error = InvalidStateError | TypeError

datatype transport_call =
    SetLocal description
  | SetRemote description
  | AddCandidate candidate
  | Close

record RTCPeerConnection =
  signalingState :: signaling
  connectionState :: connection
  localDescription :: "description option"
  remoteDescription :: "description option"
  applied :: "transport_call list"

definition new_RTCPeerConnection :: RTCPeerConnection where
  "new_RTCPeerConnection =
     \<lparr>signalingState = Stable, connectionState = New, localDescription = None,
      remoteDescription = None, applied = []\<rparr>"

definition createOffer :: "RTCPeerConnection \<Rightarrow> rtc_error + description" where
  "createOffer pc =
     (if signalingState pc = SignalingClosed then Inl InvalidStateError
      else Inr \<lparr>dtype = Some OfferT, sdp = ''v=0''\<rparr>)"

definition createAnswer :: "RTCPeerConnection \<Rightarrow> rtc_error + description" where
  "createAnswer pc =
     (if signalingState pc = HaveRemoteOffer then Inr \<lparr>dtype = Some AnswerT, sdp = ''v=0''\<rparr>
      else Inl InvalidStateError)"

text \<open>
  \<open>new RTCSessionDescription(init)\<close> followed by \<open>setLocalDescription\<close> or
  \<open>setRemoteDescription\<close>: a missing description, or one without a type, is a
  \<open>TypeError\<close>.
\<close>

definition setLocalDescription ::
  "RTCPeerConnection \<Rightarrow> description option \<Rightarrow> rtc_error + RTCPeerConnection" where
  "setLocalDescription pc init =
     (case init of
        None \<Rightarrow> Inl TypeError
      | Some d \<Rightarrow>
          (case dtype d of
             None \<Rightarrow> Inl TypeError
           | Some OfferT \<Rightarrow>
               if signalingState pc = Stable \<or> signalingState pc = HaveLocalOffer
               then Inr (pc\<lparr>signalingState := HaveLocalOffer, localDescription := Some d,
                            applied := applied pc @ [SetLocal d]\<rparr>)
               else Inl InvalidStateError
           | Some AnswerT \<Rightarrow>
               if signalingState pc = HaveRemoteOffer
               then Inr (pc\<lparr>signalingState := Stable, localDescription := Some d,
                            applied := applied pc @ [SetLocal d]\<rparr>)
               else Inl InvalidStateError))"

definition setRemoteDescription ::
  "RTCPeerConnection \<Rightarrow> description option \<Rightarrow> rtc_error + RTCPeerConnection" where
  "setRemoteDescription pc init =
     (case init of
        None \<Rightarrow> Inl TypeError
      | Some d \<Rightarrow>
          (case dtype d of
             None \<Rightarrow> Inl TypeError
           | Some OfferT \<Rightarrow>
               if signalingState pc = Stable \<or> signalingState pc = HaveRemoteOffer
               then Inr (pc\<lparr>signalingState := HaveRemoteOffer, remoteDescription := Some d,
                            applied := applied pc @ [SetRemote d]\<rparr>)
               else Inl InvalidStateError
           | Some AnswerT \<Rightarrow>
               if signalingState pc = HaveLocalOffer
               then Inr (pc\<lparr>signalingState := Stable, remoteDescription := Some d,
                            applied := applied pc @ [SetRemote d]\<rparr>)
               else Inl InvalidStateError))"

definition addIceCandidate ::
  "RTCPeerConnection \<Rightarrow> candidate \<Rightarrow> rtc_error + RTCPeerConnection" where
  "addIceCandidate pc c =
     (if signalingState pc = SignalingClosed \<or> remoteDescription pc = None
      then Inl InvalidStateError
      else Inr (pc\<lparr>applied := applied pc @ [AddCandidate c]\<rparr>))"

text \<open>\<open>close()\<close> never fails; on a closed connection it does nothing.\<close>

definition close :: "RTCPeerConnection \<Rightarrow> RTCPeerConnection" where
  "close pc =
     (if signalingState pc = SignalingClosed then pc
      else pc\<lparr>signalingState := SignalingClosed, connectionState := ConnectionClosed,
              applied := applied pc @ [Close]\<rparr>)"

text \<open>
  The loop \<open>for (const candidate of candidates) await pc.addIceCandidate(...)\<close>: the
  candidates are given to the transport from the first to the last, and the first
  rejection ends the loop.
\<close>

fun addIceCandidates ::
  "RTCPeerConnection \<Rightarrow> candidate list \<Rightarrow> rtc_error + RTCPeerConnection" where
  "addIceCandidates pc [] = Inr pc"
| "addIceCandidates pc (c # cs) =
     (case addIceCandidate pc c of
        Inl e \<Rightarrow> Inl e
      | Inr pc' \<Rightarrow> addIceCandidates pc' cs)"

section \<open>The client's connection management (SocketContext)\<close>

text \<open>
  The provider keeps three maps keyed by the id of the peer: \<open>peerConnections\<close>,
  \<open>pendingCandidates\<close> and \<open>allowedPairs\<close>. A JavaScript \<open>Map\<close> keeps its keys in
  the order of their first insertion, and \<open>forEach\<close> visits them in that order: the maps
  are association lists, \<open>set\<close> is \<open>AList.update\<close>, \<open>delete\<close> is \<open>AList.delete\<close>,
  \<open>get\<close> is \<open>map_of\<close>.

  A handler runs to completion on the state the handler before it has left: every
  \<open>await\<close> is resolved at once, with the result the transport gives. A handler returns
  the new state and what it did outside the state, in order: the events it emitted and
  the connections it closed.
\<close>

record socket_context =
  socketId :: sid
  socketSet :: bool
  isConnected :: bool
  isSearching :: bool
  isCancelling :: bool
  peerConnections :: "(sid \<times> RTCPeerConnection) list"
  pendingCandidates :: "(sid \<times> candidate list) list"
  allowedPairs :: "(sid \<times> sid) list"

datatype sc_effect =
    Emit "(description option, candidate) client_event"
  | PcClose sid

definition has :: "('k \<times> 'v) list \<Rightarrow> 'k \<Rightarrow> bool" where
  "has m k = (map_of m k \<noteq> None)"

definition provider :: "sid \<Rightarrow> socket_context" where
  "provider i =
     \<lparr>socketId = i, socketSet = True, isConnected = False, isSearching = False,
      isCancelling = False, peerConnections = [], pendingCandidates = [],
      allowedPairs = []\<rparr>"

text \<open>The connection object is shared with the map: a call on it changes the entry.\<close>

definition store :: "socket_context \<Rightarrow> sid \<Rightarrow> RTCPeerConnection \<Rightarrow> socket_context" where
  "store s userId pc = s\<lparr>peerConnections := AList.update userId pc (peerConnections s)\<rparr>"

definition getOrCreatePeerConnection ::
  "socket_context \<Rightarrow> sid \<Rightarrow> RTCPeerConnection \<times> socket_context" where
  "getOrCreatePeerConnection s userId =
     (case map_of (peerConnections s) userId of
        None \<Rightarrow> (new_RTCPeerConnection, store s userId new_RTCPeerConnection)
      | Some pc \<Rightarrow>
          if connectionState pc = ConnectionClosed
          then (new_RTCPeerConnection, store s userId new_RTCPeerConnection)
          else (pc, s))"

definition cleanupPeerConnection ::
  "socket_context \<Rightarrow> sid \<Rightarrow> socket_context \<times> sc_effect list" where
  "cleanupPeerConnection s userId =
     (s\<lparr>peerConnections := AList.delete userId (peerConnections s),
        pendingCandidates := AList.delete userId (pendingCandidates s),
        allowedPairs := AList.delete userId (allowedPairs s)\<rparr>,
      if has (peerConnections s) userId then [PcClose userId] else [])"

text \<open>
  \<open>peerConnections.current.forEach((_, userId) => cleanupPeerConnection(userId))\<close>:
  the visit of a key deletes that key only, so every key is visited once.
\<close>

fun cleanupEach :: "sid list \<Rightarrow> socket_context \<Rightarrow> socket_context \<times> sc_effect list" where
  "cleanupEach [] s = (s, [])"
| "cleanupEach (userId # rest) s =
     (case cleanupPeerConnection s userId of
        (s1, e1) \<Rightarrow> (case cleanupEach rest s1 of (s2, e2) \<Rightarrow> (s2, e1 @ e2)))"

definition cleanupAll :: "socket_context \<Rightarrow> socket_context \<times> sc_effect list" where
  "cleanupAll s = cleanupEach (map fst (peerConnections s)) s"

definition on_connect :: "socket_context \<Rightarrow> socket_context \<times> sc_effect list" where
  "on_connect s = (s\<lparr>isConnected := True\<rparr>, [])"

definition on_disconnect :: "socket_context \<Rightarrow> socket_context \<times> sc_effect list" where
  "on_disconnect s =
     (case cleanupAll (s\<lparr>isConnected := False, isSearching := False, isCancelling := False\<rparr>) of
        (s1, e1) \<Rightarrow> (s1\<lparr>allowedPairs := [], pendingCandidates := []\<rparr>, e1))"

text \<open>
  \<open>match:found\<close>. The pair is recorded first; the side whose id is the smaller string
  creates the offer. A rejection in the promise chain is logged and nothing is emitted.
\<close>

definition shouldCreateOffer :: "sid \<Rightarrow> sid \<Rightarrow> bool" where
  "shouldCreateOffer socket_id peerId = (socket_id < peerId)"

definition match_found :: "socket_context \<Rightarrow> sid \<Rightarrow> socket_context \<times> sc_effect list" where
  "match_found s peerId =
     (let s1 = s\<lparr>isSearching := False, isCancelling := False,
                 allowedPairs := AList.update peerId (socketId s) (allowedPairs s)\<rparr>
      in if shouldCreateOffer (socketId s) peerId
         then (case getOrCreatePeerConnection s1 peerId of
                 (pc, s2) \<Rightarrow>
                   (case createOffer pc of
                      Inl e \<Rightarrow> (s2, [])
                    | Inr offer \<Rightarrow>
                        (case setLocalDescription pc (Some offer) of
                           Inl e \<Rightarrow> (s2, [])
                         | Inr pc1 \<Rightarrow>
                             (store s2 peerId pc1,
                              [Emit (SendOffer peerId (localDescription pc1))]))))
         else (s1, []))"

text \<open>
  \<open>webrtc:offer\<close>. Whatever is thrown in the \<open>try\<close> block ends in
  \<open>cleanupPeerConnection\<close>; the answer is emitted before the pending candidates are
  given to the transport, so a rejection there comes after the emission.
\<close>

definition pendingFor :: "socket_context \<Rightarrow> sid \<Rightarrow> candidate list" where
  "pendingFor s userId =
     (case map_of (pendingCandidates s) userId of None \<Rightarrow> [] | Some cs \<Rightarrow> cs)"

definition webrtc_offer ::
  "socket_context \<Rightarrow> sid \<Rightarrow> description option \<Rightarrow> socket_context \<times> sc_effect list" where
  "webrtc_offer s userId offer =
     (if \<not> has (allowedPairs s) userId then (s, [])
      else
        (case getOrCreatePeerConnection s userId of
           (pc, s1) \<Rightarrow>
             (case setRemoteDescription pc offer of
                Inl e \<Rightarrow> cleanupPeerConnection s1 userId
              | Inr pc1 \<Rightarrow>
                  (case createAnswer pc1 of
                     Inl e \<Rightarrow> cleanupPeerConnection s1 userId
                   | Inr answer \<Rightarrow>
                       (case setLocalDescription pc1 (Some answer) of
                          Inl e \<Rightarrow> cleanupPeerConnection s1 userId
                        | Inr pc2 \<Rightarrow>
                            (case addIceCandidates pc2 (pendingFor s1 userId) of
                               Inl e \<Rightarrow>
                                 (case cleanupPeerConnection s1 userId of
                                    (s2, e2) \<Rightarrow>
                                      (s2, Emit (SendAnswer userId (Some answer)) # e2))
                             | Inr pc3 \<Rightarrow>
                                 ((store s1 userId pc3)
                                    \<lparr>pendingCandidates :=
                                       AList.delete userId (pendingCandidates s1)\<rparr>,
                                  [Emit (SendAnswer userId (Some answer))])))))))"

text \<open>
  \<open>webrtc:answer\<close>. Without a connection for the sender the handler throws, and the
  \<open>catch\<close> cleans up; in a signaling state other than \<open>have-local-offer\<close> it warns and
  returns.
\<close>

definition webrtc_answer ::
  "socket_context \<Rightarrow> sid \<Rightarrow> description option \<Rightarrow> socket_context \<times> sc_effect list" where
  "webrtc_answer s userId answer =
     (if \<not> has (allowedPairs s) userId then (s, [])
      else
        (case map_of (peerConnections s) userId of
           None \<Rightarrow> cleanupPeerConnection s userId
         | Some pc \<Rightarrow>
             if signalingState pc \<noteq> HaveLocalOffer then (s, [])
             else
               (case setRemoteDescription pc answer of
                  Inl e \<Rightarrow> cleanupPeerConnection s userId
                | Inr pc1 \<Rightarrow>
                    (case addIceCandidates pc1 (pendingFor s userId) of
                       Inl e \<Rightarrow> cleanupPeerConnection s userId
                     | Inr pc2 \<Rightarrow>
                         ((store s userId pc2)
                            \<lparr>pendingCandidates :=
                               AList.delete userId (pendingCandidates s)\<rparr>,
                          [])))))"

text \<open>
  \<open>webrtc:candidate\<close>. With a remote description the candidate goes to the transport
  (a rejection is logged); otherwise it is pushed on the list of the sender, created
  empty when there is none.
\<close>

definition queueCandidate :: "socket_context \<Rightarrow> sid \<Rightarrow> candidate \<Rightarrow> socket_context" where
  "queueCandidate s userId c =
     s\<lparr>pendingCandidates :=
         AList.update userId (pendingFor s userId @ [c]) (pendingCandidates s)\<rparr>"

definition webrtc_candidate ::
  "socket_context \<Rightarrow> sid \<Rightarrow> candidate \<Rightarrow> socket_context \<times> sc_effect list" where
  "webrtc_candidate s userId c =
     (if \<not> has (allowedPairs s) userId then (s, [])
      else
        (case map_of (peerConnections s) userId of
           None \<Rightarrow> (queueCandidate s userId c, [])
         | Some pc \<Rightarrow>
             if remoteDescription pc \<noteq> None
             then (case addIceCandidate pc c of
                     Inl e \<Rightarrow> (s, [])
                   | Inr pc1 \<Rightarrow> (store s userId pc1, []))
             else (queueCandidate s userId c, [])))"

text \<open>
  \<open>onconnectionstatechange\<close> of the connection of \<open>userId\<close>: the transport has moved
  to a new connection state; \<open>failed\<close> and \<open>closed\<close> clean the peer up.
\<close>

definition onconnectionstatechange ::
  "socket_context \<Rightarrow> sid \<Rightarrow> connection \<Rightarrow> socket_context \<times> sc_effect list" where
  "onconnectionstatechange s userId st =
     (case map_of (peerConnections s) userId of
        None \<Rightarrow> (s, [])
      | Some pc \<Rightarrow>
          (let s1 = store s userId (pc\<lparr>connectionState := st\<rparr>)
           in if st = Failed \<or> st = ConnectionClosed
              then cleanupPeerConnection s1 userId
              else (s1, [])))"

definition startSearching :: "socket_context \<Rightarrow> socket_context \<times> sc_effect list" where
  "startSearching s =
     (if socketSet s \<and> isConnected s \<and> \<not> isSearching s
      then (s\<lparr>isSearching := True, isCancelling := False\<rparr>, [Emit MatchSearch])
      else (s, []))"

definition stopSearching :: "socket_context \<Rightarrow> socket_context \<times> sc_effect list" where
  "stopSearching s =
     (if socketSet s \<and> isConnected s \<and> isSearching s \<and> \<not> isCancelling s
      then (case cleanupAll (s\<lparr>isCancelling := True, isSearching := False\<rparr>) of
              (s1, e1) \<Rightarrow> (s1, Emit MatchCancel # e1))
      else (s, []))"

text \<open>What happens to a provider, and the provider after a sequence of happenings.\<close>

datatype sc_event =
    OnConnect
  | OnDisconnect
  | OnMatchFound sid
  | OnOffer sid "description option"
  | OnAnswer sid "description option"
  | OnCandidate sid candidate
  | OnConnectionState sid connection
  | StartSearching
  | StopSearching

fun sc_handle :: "socket_context \<Rightarrow> sc_event \<Rightarrow> socket_context \<times> sc_effect list" where
  "sc_handle s OnConnect = on_connect s"
| "sc_handle s OnDisconnect = on_disconnect s"
| "sc_handle s (OnMatchFound peerId) = match_found s peerId"
| "sc_handle s (OnOffer userId offer) = webrtc_offer s userId offer"
| "sc_handle s (OnAnswer userId answer) = webrtc_answer s userId answer"
| "sc_handle s (OnCandidate userId c) = webrtc_candidate s userId c"
| "sc_handle s (OnConnectionState userId st) = onconnectionstatechange s userId st"
| "sc_handle s StartSearching = startSearching s"
| "sc_handle s StopSearching = stopSearching s"

fun sc_run :: "socket_context \<Rightarrow> sc_event list \<Rightarrow> socket_context" where
  "sc_run s [] = s"
| "sc_run s (e # es) = sc_run (fst (sc_handle s e)) es"

text \<open>
  The keys of a map, and the alignment of the three maps: a peer with a connection or
  with pending candidates is an allowed peer.
\<close>

definition keys :: "('k \<times> 'v) list \<Rightarrow> 'k set" where
  "keys m = fst ` set m"

definition aligned :: "socket_context \<Rightarrow> bool" where
  "aligned s =
     (keys (peerConnections s) \<subseteq> keys (allowedPairs s) \<and>
      keys (pendingCandidates s) \<subseteq> keys (allowedPairs s))"

text \<open>
  What the transport of a peer has been given so far, and the answer that
  \<open>createAnswer\<close> builds.
\<close>

definition appliedTo :: "socket_context \<Rightarrow> sid \<Rightarrow> transport_call list" where
  "appliedTo s userId =
     (case map_of (peerConnections s) userId of None \<Rightarrow> [] | Some pc \<Rightarrow> applied pc)"

definition local_answer :: description where
  "local_answer = \<lparr>dtype = Some AnswerT, sdp = ''v=0''\<rparr>"

definition local_offer :: description where
  "local_offer = \<lparr>dtype = Some OfferT, sdp = ''v=0''\<rparr>"

section \<open>The client's chat state (VideoContext)\<close>

text \<open>
  The second provider keeps one connection and one list of pending candidates in its
  component state, and listens to \<open>offer\<close>, \<open>answer\<close> and \<open>ice-candidate\<close>. The
  names that the first provider already uses carry the suffix \<open>_vc\<close>.

  \<open>remoteStream\<close>, \<open>isChatting\<close>, \<open>isSearching\<close>, \<open>isEnding\<close>, \<open>error\<close>,
  \<open>peerConnection\<close> and \<open>pendingCandidates\<close> are \<open>useState\<close> values, and \<open>socket\<close>
  and \<open>isConnected\<close> come from the context of the first provider: a function of the
  component reads the values of the render that created it, and a setter changes the
  value that the next render will see, not the one the function reads.
  \<open>remoteVideoRef\<close> and \<open>remoteStreamTimeout\<close> are refs, read and written in place:
  \<open>remoteVideoRef\<close> is \<open>None\<close> without a video element, and otherwise the
  \<open>srcObject\<close> of the element; \<open>remoteStreamTimeout\<close> is the pending timer, if any.
  Outside its state the provider emits \<open>match:cancel\<close>, stops the tracks of a stream,
  clears a timer and closes the connection.
\<close>

type_synonym media_stream = string

record video_context =
  socket_vc :: bool
  isConnected_vc :: bool
  remoteStream :: "media_stream option"
  isChatting :: bool
  isSearching_vc :: bool
  isEnding :: bool
  error :: "string option"
  peerConnection :: "RTCPeerConnection option"
  pendingCandidates_vc :: "candidate list"
  remoteVideoRef :: "media_stream option option"
  remoteStreamTimeout :: "nat option"

datatype vc_effect =
    EmitMatchCancel
  | TracksStopped media_stream
  | TimeoutCleared nat
  | PeerConnectionClosed

text \<open>
  \<open>cleanupPeerConnection\<close> and \<open>endChat\<close> take the render \<open>r\<close> whose values they
  read, and the state \<open>s\<close> that their setters and the refs change. \<open>endChat\<close> tests
  \<open>isEnding\<close>, \<open>remoteStream\<close> and, through \<open>cleanupPeerConnection\<close>,
  \<open>peerConnection\<close> of its render; \<open>setIsEnding(true)\<close> at its start and
  \<open>setIsEnding(false)\<close> at its end change the state only. A call made after the
  component has rendered the state \<open>s\<close> is \<open>endChat s s\<close>; a second call from the same
  render, before the component renders again, is \<open>endChat r\<close> on the state the first
  call has left.
\<close>

definition cleanupPeerConnection_vc ::
  "video_context \<Rightarrow> video_context \<Rightarrow> video_context \<times> vc_effect list" where
  "cleanupPeerConnection_vc r s =
     (case peerConnection r of
        None \<Rightarrow> (s\<lparr>pendingCandidates_vc := []\<rparr>, [])
      | Some pc \<Rightarrow>
          (s\<lparr>peerConnection := None, pendingCandidates_vc := []\<rparr>, [PeerConnectionClosed]))"

definition endChat ::
  "video_context \<Rightarrow> video_context \<Rightarrow> video_context \<times> vc_effect list" where
  "endChat r s =
     (if isEnding r then (s, [])
      else
        (let s1 = s\<lparr>isEnding := True\<rparr>;
             e1 = (if socket_vc r \<and> isConnected_vc r then [EmitMatchCancel] else []);
             (s2, e2) = (case remoteStream r of
                           None \<Rightarrow> (s1, [])
                         | Some r \<Rightarrow> (s1\<lparr>remoteStream := None\<rparr>, [TracksStopped r]));
             s3 = (case remoteVideoRef s2 of
                     None \<Rightarrow> s2
                   | Some src \<Rightarrow> s2\<lparr>remoteVideoRef := Some None\<rparr>);
             (s4, e4) = (case remoteStreamTimeout s3 of
                           None \<Rightarrow> (s3, [])
                         | Some t \<Rightarrow> (s3\<lparr>remoteStreamTimeout := None\<rparr>, [TimeoutCleared t]));
             (s5, e5) = cleanupPeerConnection_vc r s4
         in (s5\<lparr>isChatting := False, isSearching_vc := False, error := None,
                 isEnding := False\<rparr>,
             e1 @ e2 @ e4 @ e5)))"

text \<open>
  \<open>handleAnswer\<close> and \<open>handleIceCandidate\<close> give candidates to the transport through
  \<open>addIceCandidate\<close> of \<open>utils/webrtc\<close>, which is not among the sources: it is the
  parameter \<open>add\<close>. Whatever is thrown in \<open>handleAnswer\<close> ends the chat; the sender
  \<open>userId\<close> is not looked at. The effect registers the two handlers again whenever
  \<open>peerConnection\<close> or \<open>pendingCandidates\<close> has changed: a handler runs in the render
  of the state \<open>s\<close> it finds, and so does the \<open>endChat\<close> it calls.
\<close>

fun addEach ::
  "(RTCPeerConnection \<Rightarrow> candidate \<Rightarrow> rtc_error + RTCPeerConnection) \<Rightarrow>
   RTCPeerConnection \<Rightarrow> candidate list \<Rightarrow> rtc_error + RTCPeerConnection" where
  "addEach add pc [] = Inr pc"
| "addEach add pc (c # cs) =
     (case add pc c of
        Inl e \<Rightarrow> Inl e
      | Inr pc' \<Rightarrow> addEach add pc' cs)"

definition handleAnswer ::
  "(RTCPeerConnection \<Rightarrow> candidate \<Rightarrow> rtc_error + RTCPeerConnection) \<Rightarrow>
   video_context \<Rightarrow> sid \<Rightarrow> description option \<Rightarrow> video_context \<times> vc_effect list" where
  "handleAnswer add s userId answer =
     (case peerConnection s of
        None \<Rightarrow> endChat s s
      | Some pc \<Rightarrow>
          (case answer of
             None \<Rightarrow> endChat s s
           | Some d \<Rightarrow>
               if dtype d = None then endChat s s
               else if signalingState pc = Stable then (s, [])
               else if signalingState pc \<noteq> HaveLocalOffer then endChat s s
               else
                 (case setRemoteDescription pc answer of
                    Inl e \<Rightarrow> endChat s s
                  | Inr pc1 \<Rightarrow>
                      (case addEach add pc1 (pendingCandidates_vc s) of
                         Inl e \<Rightarrow> endChat s s
                       | Inr pc2 \<Rightarrow>
                           (s\<lparr>peerConnection := Some pc2, pendingCandidates_vc := []\<rparr>,
                            [])))))"

definition handleIceCandidate ::
  "(RTCPeerConnection \<Rightarrow> candidate \<Rightarrow> rtc_error + RTCPeerConnection) \<Rightarrow>
   video_context \<Rightarrow> sid \<Rightarrow> candidate option \<Rightarrow> video_context \<times> vc_effect list" where
  "handleIceCandidate add s userId candidate =
     (case candidate of
        None \<Rightarrow> (s, [])
      | Some c \<Rightarrow>
          (case peerConnection s of
             None \<Rightarrow> (s\<lparr>pendingCandidates_vc := pendingCandidates_vc s @ [c]\<rparr>, [])
           | Some pc \<Rightarrow>
               if remoteDescription pc \<noteq> None
               then (case add pc c of
                       Inl e \<Rightarrow> (s, [])
                     | Inr pc1 \<Rightarrow> (s\<lparr>peerConnection := Some pc1\<rparr>, []))
               else (s\<lparr>pendingCandidates_vc := pendingCandidates_vc s @ [c]\<rparr>, [])))"

text \<open>
  Two states for the handling of an answer in a signaling state where none is expected.
  \<open>answering\<close> is the first provider of \<open>bob\<close>, matched with \<open>alice\<close>, whose
  connection has taken the offer of \<open>alice\<close> and has not set its own answer yet;
  \<open>answering_vc\<close> is a second provider whose connection is in the same state.
\<close>

definition remote_offered :: RTCPeerConnection where
  "remote_offered =
     (case setRemoteDescription new_RTCPeerConnection (Some local_offer) of
        Inl e \<Rightarrow> new_RTCPeerConnection
      | Inr pc \<Rightarrow> pc)"

definition answering :: socket_context where
  "answering = store (fst (match_found (provider ''bob'') ''alice'')) ''alice'' remote_offered"

definition answering_vc :: video_context where
  "answering_vc =
     \<lparr>socket_vc = True, isConnected_vc = True, remoteStream = None, isChatting = True,
      isSearching_vc = False, isEnding = False, error = None,
      peerConnection = Some remote_offered, pendingCandidates_vc = [],
      remoteVideoRef = Some None, remoteStreamTimeout = None\<rparr>"

text \<open>
  \<open>chatting_vc\<close> is a second provider in a chat: connected, with a connection, the
  stream of the peer on the video element, a pending display timer and one pending
  candidate.
\<close>

definition chatting_vc :: video_context where
  "chatting_vc =
     \<lparr>socket_vc = True, isConnected_vc = True, remoteStream = Some ''remote'',
      isChatting = True, isSearching_vc = False, isEnding = False, error = None,
      peerConnection = Some remote_offered, pendingCandidates_vc = [''c1''],
      remoteVideoRef = Some (Some ''remote''), remoteStreamTimeout = Some 1\<rparr>"

section \<open>Properties of the server\<close>

subsection \<open>The waiting queue\<close>

lemma paired_Nil: "paired [] = {}"
  by (simp add: paired_def)

lemma paired_match: "paired [(a, MatchFound b), (b, MatchFound a)] = {a, b}"
  by (auto simp: paired_def)

lemma remove1_Nil_set: "remove1 x xs = [] \<Longrightarrow> set xs \<subseteq> {x}"
  by (cases xs) (auto split: if_splits)

lemma queue_inv_search:
  assumes "queue_inv s W" and "socket \<in> connected s"
  shows "queue_inv (fst (match_search s socket))
           (waiting_after W socket MatchSearch (snd (match_search s socket)))"
proof (cases "remove1 socket (waitingQueue s)")
  case Nil
  then have "set (waitingQueue s) \<subseteq> {socket}"
    by (rule remove1_Nil_set)
  with assms Nil show ?thesis
    by (auto simp: queue_inv_def match_search_def paired_Nil)
next
  case (Cons peer rest)
  from assms have d: "distinct (remove1 socket (waitingQueue s))"
    and e: "set (remove1 socket (waitingQueue s)) = W - {socket}"
    by (auto simp: queue_inv_def)
  from d e Cons have r: "distinct rest" "peer \<notin> set rest"
    "set rest = W - {socket, peer}" "peer \<in> W"
    by auto
  with assms have "peer \<in> connected s"
    by (auto simp: queue_inv_def)
  with Cons r assms show ?thesis
    by (auto simp: queue_inv_def match_search_def paired_match)
qed

lemma queue_inv_handle:
  assumes "queue_inv s W" and "socket \<in> connected s"
  shows "queue_inv (fst (handle s socket e))
           (waiting_after W socket e (snd (handle s socket e)))"
proof (cases e)
  case MatchSearch
  with queue_inv_search [OF assms] show ?thesis
    by (simp del: waiting_after.simps)
next
  case MatchCancel
  with assms show ?thesis
    by (auto simp: queue_inv_def match_cancel_def)
next
  case Disconnect
  with assms show ?thesis
    by (auto simp: queue_inv_def disconnect_def)
qed (use assms in \<open>auto simp: queue_inv_def webrtc_offer_relay_def webrtc_answer_relay_def
       webrtc_candidate_relay_def\<close>)

lemma queue_inv_run:
  "queue_inv s W \<Longrightarrow> deliverable s es \<Longrightarrow> queue_inv (run s es) (waiting s W es)"
proof (induction es arbitrary: s W)
  case Nil
  then show ?case by simp
next
  case (Cons a es)
  obtain socket e where a: "a = (socket, e)"
    by (cases a)
  with Cons.prems
  have "queue_inv (fst (handle s socket e))
          (waiting_after W socket e (snd (handle s socket e)))"
    by (simp add: queue_inv_handle)
  with Cons a show ?case by simp
qed

text \<open>
  Claim C3. After every sequence of events that connected sockets deliver to a server
  that starts with an empty queue, the queue holds no id twice, and the ids in the queue
  are the participants that wait: those whose last search left them without a partner
  and that have not been paired, cancelled or disconnected since.
\<close>

theorem waiting_queue_invariant:
  assumes "deliverable (start C) es"
  shows "distinct (waitingQueue (run (start C) es)) \<and>
         set (waitingQueue (run (start C) es)) = waiting (start C) {} es"
proof -
  have "queue_inv (start C) {}"
    by (simp add: queue_inv_def start_def)
  from this assms have "queue_inv (run (start C) es) (waiting (start C) {} es)"
    by (rule queue_inv_run)
  then show ?thesis
    by (simp add: queue_inv_def)
qed

theorem waiting_queue_invariant_witness:
  "deliverable (start {''alice'', ''bob'', ''carol''})
     [(''alice'', MatchSearch), (''bob'', MatchSearch), (''carol'', MatchSearch),
      (''alice'', Disconnect :: (unit, unit) client_event)] \<and>
   waitingQueue (run (start {''alice'', ''bob'', ''carol''})
     [(''alice'', MatchSearch), (''bob'', MatchSearch), (''carol'', MatchSearch),
      (''alice'', Disconnect :: (unit, unit) client_event)]) = [''carol''] \<and>
   waiting (start {''alice'', ''bob'', ''carol''}) {}
     [(''alice'', MatchSearch), (''bob'', MatchSearch), (''carol'', MatchSearch),
      (''alice'', Disconnect :: (unit, unit) client_event)] = {''carol''}"
proof -
  let ?es = "[(''alice'', MatchSearch), (''bob'', MatchSearch), (''carol'', MatchSearch),
      (''alice'', Disconnect :: (unit, unit) client_event)]"
  have d: "deliverable (start {''alice'', ''bob'', ''carol''}) ?es"
    by (simp add: start_def match_search_def disconnect_def)
  have q: "waitingQueue (run (start {''alice'', ''bob'', ''carol''}) ?es) = [''carol'']"
    by (simp add: start_def match_search_def disconnect_def)
  from waiting_queue_invariant [OF d] q
  have "waiting (start {''alice'', ''bob'', ''carol''}) {} ?es = {''carol''}"
    by simp
  with d q show ?thesis by simp
qed

subsection \<open>Cancel\<close>

text \<open>
  Claim C5, as the code has it. On a queue without duplicates, \<open>match:cancel\<close> removes
  the id of the caller when it is queued and leaves the rest of the state alone; it
  acknowledges with \<open>match:cancelled\<close> exactly when the id was queued, and not
  otherwise; a second call changes nothing and acknowledges nothing.
\<close>

theorem match_cancel_acks_only_queued:
  assumes "distinct (waitingQueue s)"
  shows "waitingQueue (fst (match_cancel s socket)) = removeAll socket (waitingQueue s) \<and>
         connected (fst (match_cancel s socket)) = connected s \<and>
         snd (match_cancel s socket) =
           (if socket \<in> set (waitingQueue s) then [(socket, MatchCancelled)] else []) \<and>
         match_cancel (fst (match_cancel s socket)) socket = (fst (match_cancel s socket), [])"
  using assms by (simp add: match_cancel_def distinct_remove1_removeAll)

theorem match_cancel_acks_only_queued_witness:
  "distinct (waitingQueue \<lparr>waitingQueue = [''alice'', ''bob''], connected = {''alice'', ''bob''}\<rparr>) \<and>
   match_cancel \<lparr>waitingQueue = [''alice'', ''bob''], connected = {''alice'', ''bob''}\<rparr> ''bob'' =
     (\<lparr>waitingQueue = [''alice''], connected = {''alice'', ''bob''}\<rparr>,
      [(''bob'', MatchCancelled :: (unit, unit) server_event)]) \<and>
   match_cancel \<lparr>waitingQueue = [''alice''], connected = {''alice'', ''bob''}\<rparr> ''bob'' =
     (\<lparr>waitingQueue = [''alice''], connected = {''alice'', ''bob''}\<rparr>,
      [] :: (unit, unit) emission list)"
  using match_cancel_acks_only_queued
    [of "\<lparr>waitingQueue = [''alice'', ''bob''], connected = {''alice'', ''bob''}\<rparr>" "''bob''"]
  by (simp add: match_cancel_def)

text \<open>
  The claim as it is written fails: a cancel from a socket that is not queued is not
  acknowledged.
\<close>

theorem match_cancel_ack_counterexample:
  "\<not> (\<forall>s socket. (socket, MatchCancelled) \<in>
         set (snd (match_cancel s socket :: server \<times> (unit, unit) emission list)))"
proof
  assume "\<forall>s socket. (socket, MatchCancelled) \<in>
         set (snd (match_cancel s socket :: server \<times> (unit, unit) emission list))"
  then have "(''alice'', MatchCancelled) \<in>
         set (snd (match_cancel (start {''alice''}) ''alice''
                :: server \<times> (unit, unit) emission list))"
    by blast
  then show False
    by (simp add: match_cancel_def start_def)
qed

subsection \<open>Search against a stale head\<close>

text \<open>
  Claim C7. When the earliest entry of the queue is a socket that is no longer
  connected, a search by a connected socket takes that entry out, does not look at the
  entry behind it, pushes the searching socket at the end and emits nothing; on an empty
  queue the searching socket is pushed and nothing is emitted.
\<close>

theorem match_search_stale_head:
  "(waitingQueue s = peer # rest \<and> peer \<notin> connected s \<and> socket \<in> connected s \<longrightarrow>
      match_search s socket = (s\<lparr>waitingQueue := remove1 socket rest @ [socket]\<rparr>, [])) \<and>
   (waitingQueue s = [] \<longrightarrow> match_search s socket = (s\<lparr>waitingQueue := [socket]\<rparr>, []))"
  by (auto simp: match_search_def)

theorem match_search_stale_head_witness:
  "match_search \<lparr>waitingQueue = [''gone'', ''bob''], connected = {''alice'', ''bob''}\<rparr> ''alice'' =
     (\<lparr>waitingQueue = [''bob'', ''alice''], connected = {''alice'', ''bob''}\<rparr>,
      [] :: (unit, unit) emission list) \<and>
   match_search \<lparr>waitingQueue = [], connected = {''alice'', ''bob''}\<rparr> ''alice'' =
     (\<lparr>waitingQueue = [''alice''], connected = {''alice'', ''bob''}\<rparr>,
      [] :: (unit, unit) emission list)"
  using match_search_stale_head
    [of "\<lparr>waitingQueue = [''gone'', ''bob''], connected = {''alice'', ''bob''}\<rparr>"
        "''gone''" "[''bob'']" "''alice''"]
    match_search_stale_head
    [of "\<lparr>waitingQueue = [], connected = {''alice'', ''bob''}\<rparr>" _ _ "''alice''"]
  by simp

subsection \<open>The relay\<close>

text \<open>
  Claim C8, as the code has it. An offer, an answer or a candidate addressed to
  \<open>userId\<close> is sent on to the connected socket of that id when it is not the sending
  socket itself, with the payload unchanged and the id of the sending socket in the
  place of the address; when no such socket is connected, or the address is the sender's
  own id, nothing is sent to anyone. The state of the server is never changed.
\<close>

theorem relay_substitutes_sender:
  "webrtc_offer_relay s socket userId offer =
     (s, if userId \<in> connected s \<and> userId \<noteq> socket
         then [(userId, WebrtcOffer socket offer)] else []) \<and>
   webrtc_answer_relay s socket userId answer =
     (s, if userId \<in> connected s \<and> userId \<noteq> socket
         then [(userId, WebrtcAnswer socket answer)] else []) \<and>
   webrtc_candidate_relay s socket userId candidate =
     (s, if userId \<in> connected s \<and> userId \<noteq> socket
         then [(userId, WebrtcCandidate socket candidate)] else [])"
  by (simp add: webrtc_offer_relay_def webrtc_answer_relay_def webrtc_candidate_relay_def
      socket_to_def)

theorem relay_substitutes_sender_witness:
  "webrtc_offer_relay (start {''alice'', ''bob''}) ''alice'' ''bob'' ''sdp'' =
     (start {''alice'', ''bob''}, [(''bob'', WebrtcOffer ''alice'' ''sdp'' :: (string, unit) server_event)]) \<and>
   webrtc_candidate_relay (start {''alice'', ''bob''}) ''alice'' ''carol'' ''c1'' =
     (start {''alice'', ''bob''}, [] :: (unit, string) emission list)"
  by (simp add: relay_substitutes_sender start_def)

text \<open>
  The claim as it is written fails for a message a socket addresses to itself: the
  target is connected, and the message is not forwarded.
\<close>

theorem relay_to_self_counterexample:
  "\<not> (\<forall>s socket userId (offer :: string). userId \<in> connected s \<longrightarrow>
         snd (webrtc_offer_relay s socket userId offer) =
           [(userId, WebrtcOffer socket offer :: (string, unit) server_event)])"
proof
  assume "\<forall>s socket userId (offer :: string). userId \<in> connected s \<longrightarrow>
         snd (webrtc_offer_relay s socket userId offer) =
           [(userId, WebrtcOffer socket offer :: (string, unit) server_event)]"
  then have "''alice'' \<in> connected (start {''alice''}) \<longrightarrow>
         snd (webrtc_offer_relay (start {''alice''}) ''alice'' ''alice'' ''sdp'') =
           [(''alice'', WebrtcOffer ''alice'' ''sdp'' :: (string, unit) server_event)]"
    by blast
  then show False
    by (simp add: webrtc_offer_relay_def socket_to_def start_def)
qed

section \<open>Properties of the first provider\<close>

subsection \<open>The three maps\<close>

lemma has_keys: "has m k \<longleftrightarrow> k \<in> keys m"
  by (simp add: has_def keys_def map_of_eq_None_iff)

lemma keys_update: "keys (AList.update k v m) = insert k (keys m)"
  by (simp add: keys_def dom_update)

lemma keys_delete: "keys (AList.delete k m) = keys m - {k}"
proof -
  have "set (map fst (AList.delete k m)) = set (removeAll k (map fst m))"
    by (simp only: delete_keys)
  then show ?thesis by (simp add: keys_def)
qed

lemma keys_Nil: "keys [] = {}"
  by (simp add: keys_def)

lemma keys_empty_iff: "keys m = {} \<longleftrightarrow> m = []"
  by (simp add: keys_def)

lemma map_of_Some_keys: "map_of m k = Some v \<Longrightarrow> k \<in> keys m"
  using has_keys [of m k] by (simp add: has_def)

lemma getOrCreate_frame:
  assumes "getOrCreatePeerConnection s u = (pc, s1)"
  shows "pendingCandidates s1 = pendingCandidates s" "allowedPairs s1 = allowedPairs s"
    "keys (peerConnections s1) = insert u (keys (peerConnections s))"
    "map_of (peerConnections s1) u = Some pc"
  using assms
  by (auto simp: getOrCreatePeerConnection_def store_def keys_update update_conv'
      split: option.splits if_splits dest: map_of_Some_keys)

lemma cleanup_keys:
  "keys (peerConnections (fst (cleanupPeerConnection s u))) = keys (peerConnections s) - {u}"
  "keys (pendingCandidates (fst (cleanupPeerConnection s u))) = keys (pendingCandidates s) - {u}"
  "keys (allowedPairs (fst (cleanupPeerConnection s u))) = keys (allowedPairs s) - {u}"
  by (simp_all add: cleanupPeerConnection_def keys_delete)

lemma aligned_cleanup: "aligned s \<Longrightarrow> aligned (fst (cleanupPeerConnection s u))"
  by (auto simp: aligned_def cleanup_keys)

lemma aligned_cleanup_eq: "cleanupPeerConnection s u = (s1, e1) \<Longrightarrow> aligned s \<Longrightarrow> aligned s1"
  using aligned_cleanup [of s u] by simp

lemma cleanupEach_keys:
  "keys (peerConnections (fst (cleanupEach ks s))) = keys (peerConnections s) - set ks \<and>
   keys (pendingCandidates (fst (cleanupEach ks s))) = keys (pendingCandidates s) - set ks \<and>
   keys (allowedPairs (fst (cleanupEach ks s))) = keys (allowedPairs s) - set ks"
proof (induction ks arbitrary: s)
  case Nil
  show ?case by simp
next
  case (Cons k ks)
  obtain s1 e1 where c: "cleanupPeerConnection s k = (s1, e1)" by (cases "cleanupPeerConnection s k")
  with cleanup_keys [of s k]
  have k1: "keys (peerConnections s1) = keys (peerConnections s) - {k}"
    "keys (pendingCandidates s1) = keys (pendingCandidates s) - {k}"
    "keys (allowedPairs s1) = keys (allowedPairs s) - {k}"
    by simp_all
  obtain s2 e2 where d: "cleanupEach ks s1 = (s2, e2)" by (cases "cleanupEach ks s1")
  from Cons.IH [of s1] d c k1 show ?case
    by auto
qed

lemma cleanupAll_keys:
  "peerConnections (fst (cleanupAll s)) = []"
  "keys (pendingCandidates (fst (cleanupAll s))) = keys (pendingCandidates s) - keys (peerConnections s)"
  "keys (allowedPairs (fst (cleanupAll s))) = keys (allowedPairs s) - keys (peerConnections s)"
proof -
  have "keys (peerConnections (fst (cleanupAll s))) = {}"
    using cleanupEach_keys [of "map fst (peerConnections s)" s]
    by (simp add: cleanupAll_def keys_def)
  then show "peerConnections (fst (cleanupAll s)) = []" by (simp add: keys_empty_iff)
next
  show "keys (pendingCandidates (fst (cleanupAll s))) = keys (pendingCandidates s) - keys (peerConnections s)"
    using cleanupEach_keys [of "map fst (peerConnections s)" s]
    by (simp add: cleanupAll_def keys_def)
next
  show "keys (allowedPairs (fst (cleanupAll s))) = keys (allowedPairs s) - keys (peerConnections s)"
    using cleanupEach_keys [of "map fst (peerConnections s)" s]
    by (simp add: cleanupAll_def keys_def)
qed

lemma aligned_cleanupAll: "aligned s \<Longrightarrow> aligned (fst (cleanupAll s))"
  by (auto simp: aligned_def cleanupAll_keys keys_Nil)

lemma on_disconnect_maps:
  "peerConnections (fst (on_disconnect s)) = []"
  "pendingCandidates (fst (on_disconnect s)) = []"
  "allowedPairs (fst (on_disconnect s)) = []"
  using cleanupAll_keys(1) [of "s\<lparr>isConnected := False, isSearching := False, isCancelling := False\<rparr>"]
  by (auto simp: on_disconnect_def split: prod.splits)

lemma aligned_on_disconnect: "aligned (fst (on_disconnect s))"
  by (simp add: on_disconnect_maps aligned_def keys_Nil)

lemma aligned_match_found: "aligned s \<Longrightarrow> aligned (fst (match_found s peerId))"
  by (auto simp: match_found_def Let_def aligned_def keys_update store_def
      getOrCreatePeerConnection_def
      split: prod.splits sum.splits option.splits if_splits)

lemma aligned_webrtc_offer: "aligned s \<Longrightarrow> aligned (fst (webrtc_offer s userId offer))"
proof (cases "has (allowedPairs s) userId")
  case False
  then show "aligned s \<Longrightarrow> ?thesis" by (simp add: webrtc_offer_def)
next
  case True
  assume a: "aligned s"
  obtain pc s1 where g: "getOrCreatePeerConnection s userId = (pc, s1)"
    by (cases "getOrCreatePeerConnection s userId")
  from a True getOrCreate_frame [OF g] have a1: "aligned s1"
    by (auto simp: aligned_def has_keys)
  have k: "userId \<in> keys (allowedPairs s1)"
    using True getOrCreate_frame [OF g] by (simp add: has_keys)
  from a1 k have a2: "aligned ((store s1 userId pc3)\<lparr>pendingCandidates :=
                                       AList.delete userId (pendingCandidates s1)\<rparr>)" for pc3
    by (auto simp: aligned_def store_def keys_update keys_delete)
  from True g a1 a2 show ?thesis
    by (auto simp: webrtc_offer_def aligned_cleanup split: sum.splits prod.splits
        dest: aligned_cleanup_eq)
qed

lemma aligned_webrtc_answer: "aligned s \<Longrightarrow> aligned (fst (webrtc_answer s userId answer))"
proof (cases "has (allowedPairs s) userId")
  case False
  then show "aligned s \<Longrightarrow> ?thesis" by (simp add: webrtc_answer_def)
next
  case True
  assume a: "aligned s"
  from a True have a2: "aligned ((store s userId pc2)\<lparr>pendingCandidates :=
                                       AList.delete userId (pendingCandidates s)\<rparr>)" for pc2
    by (auto simp: aligned_def store_def keys_update keys_delete has_keys)
  from True a a2 show ?thesis
    by (auto simp: webrtc_answer_def aligned_cleanup split: sum.splits option.splits)
qed

lemma aligned_webrtc_candidate: "aligned s \<Longrightarrow> aligned (fst (webrtc_candidate s userId c))"
  by (auto simp: webrtc_candidate_def aligned_def queueCandidate_def store_def keys_update has_keys
      split: sum.splits option.splits dest: map_of_Some_keys)

lemma aligned_onconnectionstatechange:
  "aligned s \<Longrightarrow> aligned (fst (onconnectionstatechange s userId st))"
proof -
  assume a: "aligned s"
  have "aligned (store s userId pc)" if "map_of (peerConnections s) userId = Some pc'" for pc pc'
    using a map_of_Some_keys [OF that] by (auto simp: aligned_def store_def keys_update)
  then show ?thesis
    using a by (auto simp: onconnectionstatechange_def Let_def aligned_cleanup split: option.splits)
qed

lemma aligned_stopSearching: "aligned s \<Longrightarrow> aligned (fst (stopSearching s))"
proof -
  assume a: "aligned s"
  then have "aligned (s\<lparr>isCancelling := True, isSearching := False\<rparr>)"
    by (simp add: aligned_def)
  then have "aligned (fst (cleanupAll (s\<lparr>isCancelling := True, isSearching := False\<rparr>)))"
    by (rule aligned_cleanupAll)
  with a show ?thesis
    by (auto simp: stopSearching_def split: prod.splits)
qed

lemma aligned_sc_handle: "aligned s \<Longrightarrow> aligned (fst (sc_handle s e))"
  by (cases e)
    (simp_all add: aligned_on_disconnect aligned_match_found aligned_webrtc_offer
      aligned_webrtc_answer aligned_webrtc_candidate aligned_onconnectionstatechange
      aligned_stopSearching, simp_all add: on_connect_def startSearching_def aligned_def)

lemma aligned_sc_run: "aligned s \<Longrightarrow> aligned (sc_run s es)"
  by (induction es arbitrary: s) (simp_all add: aligned_sc_handle)

lemma aligned_provider: "aligned (provider i)"
  by (simp add: aligned_def provider_def keys_Nil)

lemma cleanup_not_has:
  "\<not> has (peerConnections (fst (cleanupPeerConnection s u))) u"
  "\<not> has (pendingCandidates (fst (cleanupPeerConnection s u))) u"
  "\<not> has (allowedPairs (fst (cleanupPeerConnection s u))) u"
  by (simp_all add: has_keys cleanup_keys)

lemma unauthorized:
  assumes "\<not> has (allowedPairs s) userId"
  shows "webrtc_offer s userId offer = (s, [])" "webrtc_answer s userId answer = (s, [])"
    "webrtc_candidate s userId c = (s, [])"
  using assms by (simp_all add: webrtc_offer_def webrtc_answer_def webrtc_candidate_def)

text \<open>
  Claim C10. In every state the provider reaches from its first state, a peer with a
  connection or with pending candidates is an allowed peer. \<open>cleanupPeerConnection\<close>
  takes a peer out of the three maps at once, so that an offer, an answer or a candidate
  of that peer is dropped afterwards and none of its candidates is left; the handler of
  the socket's \<open>disconnect\<close> leaves the three maps empty.
\<close>

theorem maps_cleared_together:
  "aligned (sc_run (provider i) es) \<and>
   (\<not> has (peerConnections (fst (cleanupPeerConnection s userId))) userId \<and>
    \<not> has (pendingCandidates (fst (cleanupPeerConnection s userId))) userId \<and>
    \<not> has (allowedPairs (fst (cleanupPeerConnection s userId))) userId \<and>
    webrtc_offer (fst (cleanupPeerConnection s userId)) userId offer =
      (fst (cleanupPeerConnection s userId), []) \<and>
    webrtc_answer (fst (cleanupPeerConnection s userId)) userId answer =
      (fst (cleanupPeerConnection s userId), []) \<and>
    webrtc_candidate (fst (cleanupPeerConnection s userId)) userId c =
      (fst (cleanupPeerConnection s userId), [])) \<and>
   (peerConnections (fst (on_disconnect s)) = [] \<and>
    pendingCandidates (fst (on_disconnect s)) = [] \<and>
    allowedPairs (fst (on_disconnect s)) = [])"
proof (intro conjI)
  show "aligned (sc_run (provider i) es)"
    using aligned_provider by (rule aligned_sc_run)
qed (simp_all add: cleanup_not_has unauthorized on_disconnect_maps)

theorem maps_cleared_together_witness:
  "aligned (sc_run (provider ''bob'')
      [OnConnect, StartSearching, OnMatchFound ''alice'', OnCandidate ''alice'' ''c1'',
       OnOffer ''alice'' (Some local_offer), OnConnectionState ''alice'' Failed]) \<and>
   allowedPairs (sc_run (provider ''bob'')
      [OnConnect, StartSearching, OnMatchFound ''alice'', OnCandidate ''alice'' ''c1'',
       OnOffer ''alice'' (Some local_offer), OnConnectionState ''alice'' Failed]) = [] \<and>
   webrtc_candidate (fst (cleanupPeerConnection answering ''alice'')) ''alice'' ''c2'' =
     (fst (cleanupPeerConnection answering ''alice''), [])"
  using maps_cleared_together [of "''bob''"
      "[OnConnect, StartSearching, OnMatchFound ''alice'', OnCandidate ''alice'' ''c1'',
       OnOffer ''alice'' (Some local_offer), OnConnectionState ''alice'' Failed]"
      answering "''alice''" _ _ "''c2''"]
  by (simp add: provider_def on_connect_def startSearching_def match_found_def
      shouldCreateOffer_def webrtc_candidate_def queueCandidate_def pendingFor_def has_def
      webrtc_offer_def getOrCreatePeerConnection_def store_def new_RTCPeerConnection_def
      setRemoteDescription_def createAnswer_def setLocalDescription_def addIceCandidate_def
      local_offer_def onconnectionstatechange_def cleanupPeerConnection_def)

subsection \<open>The guard on the sender\<close>

text \<open>
  Claim C6. An offer, an answer or a candidate whose sender is not a key of
  \<open>allowedPairs\<close> is dropped: nothing is given to the transport, nothing is closed or
  emitted, and the state stays as it was. After \<open>match:found\<close> the matched peer is a
  key of \<open>allowedPairs\<close>, so its messages pass the guard.
\<close>

theorem unauthorized_messages_dropped:
  "(\<not> has (allowedPairs s) userId \<longrightarrow>
      webrtc_offer s userId offer = (s, []) \<and>
      webrtc_answer s userId answer = (s, []) \<and>
      webrtc_candidate s userId c = (s, [])) \<and>
   has (allowedPairs (fst (match_found s peerId))) peerId"
proof -
  have "has (allowedPairs (fst (match_found s peerId))) peerId"
    by (auto simp: match_found_def Let_def has_keys keys_update store_def
        getOrCreatePeerConnection_def split: prod.splits sum.splits option.splits)
  then show ?thesis by (simp add: unauthorized)
qed

theorem unauthorized_messages_dropped_witness:
  "\<not> has (allowedPairs (fst (match_found (provider ''bob'') ''alice''))) ''mallory'' \<and>
   webrtc_offer (fst (match_found (provider ''bob'') ''alice'')) ''mallory'' (Some local_offer) =
     (fst (match_found (provider ''bob'') ''alice''), []) \<and>
   webrtc_candidate (fst (match_found (provider ''bob'') ''alice'')) ''mallory'' ''c1'' =
     (fst (match_found (provider ''bob'') ''alice''), []) \<and>
   has (allowedPairs (fst (match_found (provider ''bob'') ''alice''))) ''alice''"
proof -
  have n: "\<not> has (allowedPairs (fst (match_found (provider ''bob'') ''alice''))) ''mallory''"
    by (simp add: match_found_def shouldCreateOffer_def provider_def has_def)
  with unauthorized_messages_dropped
    [of "fst (match_found (provider ''bob'') ''alice'')" "''mallory''" "Some local_offer" _ "''c1''"]
    unauthorized_messages_dropped [of "provider ''bob''" _ _ _ _ "''alice''"]
  show ?thesis by simp
qed

subsection \<open>Candidates and the remote description\<close>

lemma addIceCandidates_ok:
  "remoteDescription pc \<noteq> None \<Longrightarrow> signalingState pc \<noteq> SignalingClosed \<Longrightarrow>
   addIceCandidates pc cs = Inr (pc\<lparr>applied := applied pc @ map AddCandidate cs\<rparr>)"
  by (induction cs arbitrary: pc) (simp_all add: addIceCandidate_def)

lemma pendingFor_queue: "pendingFor (queueCandidate s u c) u = pendingFor s u @ [c]"
  by (simp add: pendingFor_def queueCandidate_def update_conv')

lemma candidate_queued:
  assumes "has (allowedPairs s) u" and "map_of (peerConnections s) u = None \<or>
    (\<exists>pc. map_of (peerConnections s) u = Some pc \<and> remoteDescription pc = None)"
  shows "webrtc_candidate s u c = (queueCandidate s u c, [])"
  using assms by (auto simp: webrtc_candidate_def)

lemma candidates_queued:
  assumes "has (allowedPairs s) u" and "map_of (peerConnections s) u = None \<or>
    (\<exists>pc. map_of (peerConnections s) u = Some pc \<and> remoteDescription pc = None)"
  shows "peerConnections (sc_run s (map (OnCandidate u) cs)) = peerConnections s \<and>
         allowedPairs (sc_run s (map (OnCandidate u) cs)) = allowedPairs s \<and>
         pendingFor (sc_run s (map (OnCandidate u) cs)) u = pendingFor s u @ cs"
  using assms
proof (induction cs arbitrary: s)
  case Nil
  then show ?case by simp
next
  case (Cons c cs)
  let ?s = "queueCandidate s u c"
  have q: "webrtc_candidate s u c = (?s, [])"
    using Cons.prems by (rule candidate_queued)
  have f: "peerConnections ?s = peerConnections s" "allowedPairs ?s = allowedPairs s"
    by (simp_all add: queueCandidate_def)
  from Cons.IH [of ?s] Cons.prems f q show ?case
    by (simp add: pendingFor_queue)
qed

lemma sc_run_append: "sc_run s (xs @ ys) = sc_run (sc_run s xs) ys"
  by (induction xs arbitrary: s) simp_all

lemma offer_flush:
  assumes "has (allowedPairs s) u" and "map_of (peerConnections s) u = None"
    and "dtype d = Some OfferT"
  shows "snd (webrtc_offer s u (Some d)) = [Emit (SendAnswer u (Some local_answer))]"
    "appliedTo (fst (webrtc_offer s u (Some d))) u =
       [SetRemote d, SetLocal local_answer] @ map AddCandidate (pendingFor s u)"
    "pendingFor (fst (webrtc_offer s u (Some d))) u = []"
    "has (allowedPairs (fst (webrtc_offer s u (Some d)))) u"
  using assms
  by (simp_all add: webrtc_offer_def getOrCreatePeerConnection_def store_def
      new_RTCPeerConnection_def setRemoteDescription_def createAnswer_def
      setLocalDescription_def addIceCandidates_ok local_answer_def pendingFor_def
      appliedTo_def update_conv' delete_conv')

lemma answer_flush:
  assumes "has (allowedPairs s) u" and "map_of (peerConnections s) u = Some pc"
    and "signalingState pc = HaveLocalOffer" and "dtype a = Some AnswerT"
  shows "snd (webrtc_answer s u (Some a)) = []"
    "appliedTo (fst (webrtc_answer s u (Some a))) u =
       applied pc @ [SetRemote a] @ map AddCandidate (pendingFor s u)"
    "pendingFor (fst (webrtc_answer s u (Some a))) u = []"
  using assms
  by (simp_all add: webrtc_answer_def store_def setRemoteDescription_def
      addIceCandidates_ok pendingFor_def appliedTo_def update_conv' delete_conv')

lemma candidate_applied:
  assumes "has (allowedPairs s) u" and "map_of (peerConnections s) u = Some pc"
    and "remoteDescription pc \<noteq> None" and "signalingState pc \<noteq> SignalingClosed"
  shows "webrtc_candidate s u c = (store s u (pc\<lparr>applied := applied pc @ [AddCandidate c]\<rparr>), [])"
  using assms by (auto simp: webrtc_candidate_def addIceCandidate_def)

text \<open>
  Claim C1. Let \<open>u\<close> be an allowed peer. Candidates of \<open>u\<close> that arrive while the
  connection of \<open>u\<close> has no remote description (there is no connection yet, on the
  answering side; the local offer is set and the answer has not come, on the offering
  side) are appended to the pending list of \<open>u\<close> and the transport is given nothing.
  The offer, respectively the answer, of \<open>u\<close> then gives the transport the remote
  description first and the pending candidates after it, in the order of their arrival,
  and empties the list. A candidate that arrives when the remote description is set goes
  to the transport at once and the pending lists are not touched.
\<close>

theorem pending_candidates_flushed_in_order:
  assumes "has (allowedPairs s) u"
  shows
   "(map_of (peerConnections s) u = None \<and> dtype d = Some OfferT \<longrightarrow>
       appliedTo (sc_run s (map (OnCandidate u) cs)) u = [] \<and>
       pendingFor (sc_run s (map (OnCandidate u) cs)) u = pendingFor s u @ cs \<and>
       appliedTo (sc_run s (map (OnCandidate u) cs @ [OnOffer u (Some d)])) u =
         [SetRemote d, SetLocal local_answer] @ map AddCandidate (pendingFor s u @ cs) \<and>
       pendingFor (sc_run s (map (OnCandidate u) cs @ [OnOffer u (Some d)])) u = []) \<and>
    (map_of (peerConnections s) u = Some pc \<and> signalingState pc = HaveLocalOffer \<and>
     remoteDescription pc = None \<and> dtype a = Some AnswerT \<longrightarrow>
       appliedTo (sc_run s (map (OnCandidate u) cs)) u = applied pc \<and>
       pendingFor (sc_run s (map (OnCandidate u) cs)) u = pendingFor s u @ cs \<and>
       appliedTo (sc_run s (map (OnCandidate u) cs @ [OnAnswer u (Some a)])) u =
         applied pc @ [SetRemote a] @ map AddCandidate (pendingFor s u @ cs) \<and>
       pendingFor (sc_run s (map (OnCandidate u) cs @ [OnAnswer u (Some a)])) u = []) \<and>
    (map_of (peerConnections s) u = Some pc' \<and> remoteDescription pc' \<noteq> None \<and>
     signalingState pc' \<noteq> SignalingClosed \<longrightarrow>
       appliedTo (fst (webrtc_candidate s u c)) u = applied pc' @ [AddCandidate c] \<and>
       pendingCandidates (fst (webrtc_candidate s u c)) = pendingCandidates s)"
proof (intro conjI impI)
  let ?s1 = "sc_run s (map (OnCandidate u) cs)"
  {
    assume h: "map_of (peerConnections s) u = None \<and> dtype d = Some OfferT"
    then have q: "peerConnections ?s1 = peerConnections s \<and> allowedPairs ?s1 = allowedPairs s \<and>
        pendingFor ?s1 u = pendingFor s u @ cs"
      using assms by (intro candidates_queued) simp_all
    from q h show "appliedTo ?s1 u = []"
      by (simp add: appliedTo_def)
    from q show "pendingFor ?s1 u = pendingFor s u @ cs"
      by simp
    from q h assms have p: "has (allowedPairs ?s1) u" "map_of (peerConnections ?s1) u = None"
      "dtype d = Some OfferT"
      by simp_all
    from offer_flush(2) [OF p] q
    show "appliedTo (sc_run s (map (OnCandidate u) cs @ [OnOffer u (Some d)])) u =
         [SetRemote d, SetLocal local_answer] @ map AddCandidate (pendingFor s u @ cs)"
      by (simp add: sc_run_append)
    from offer_flush(3) [OF p]
    show "pendingFor (sc_run s (map (OnCandidate u) cs @ [OnOffer u (Some d)])) u = []"
      by (simp add: sc_run_append)
  }
  {
    assume h: "map_of (peerConnections s) u = Some pc \<and> signalingState pc = HaveLocalOffer \<and>
     remoteDescription pc = None \<and> dtype a = Some AnswerT"
    then have q: "peerConnections ?s1 = peerConnections s \<and> allowedPairs ?s1 = allowedPairs s \<and>
        pendingFor ?s1 u = pendingFor s u @ cs"
      using assms by (intro candidates_queued) simp_all
    from q h show "appliedTo ?s1 u = applied pc"
      by (simp add: appliedTo_def)
    from q show "pendingFor ?s1 u = pendingFor s u @ cs"
      by simp
    from q h assms have p: "has (allowedPairs ?s1) u" "map_of (peerConnections ?s1) u = Some pc"
      "signalingState pc = HaveLocalOffer" "dtype a = Some AnswerT"
      by simp_all
    from answer_flush(2) [OF p] q
    show "appliedTo (sc_run s (map (OnCandidate u) cs @ [OnAnswer u (Some a)])) u =
         applied pc @ [SetRemote a] @ map AddCandidate (pendingFor s u @ cs)"
      by (simp add: sc_run_append)
    from answer_flush(3) [OF p]
    show "pendingFor (sc_run s (map (OnCandidate u) cs @ [OnAnswer u (Some a)])) u = []"
      by (simp add: sc_run_append)
  }
  {
    assume h: "map_of (peerConnections s) u = Some pc' \<and> remoteDescription pc' \<noteq> None \<and>
     signalingState pc' \<noteq> SignalingClosed"
    with assms have "webrtc_candidate s u c =
        (store s u (pc'\<lparr>applied := applied pc' @ [AddCandidate c]\<rparr>), [])"
      by (intro candidate_applied) simp_all
    then show "appliedTo (fst (webrtc_candidate s u c)) u = applied pc' @ [AddCandidate c]"
      "pendingCandidates (fst (webrtc_candidate s u c)) = pendingCandidates s"
      by (simp_all add: appliedTo_def store_def update_conv')
  }
qed

theorem pending_candidates_flushed_in_order_witness:
  "has (allowedPairs (fst (match_found (provider ''bob'') ''alice''))) ''alice'' \<and>
   appliedTo (sc_run (fst (match_found (provider ''bob'') ''alice''))
       (map (OnCandidate ''alice'') [''c1'', ''c2'', ''c3''])) ''alice'' = [] \<and>
   appliedTo (sc_run (fst (match_found (provider ''bob'') ''alice''))
       (map (OnCandidate ''alice'') [''c1'', ''c2'', ''c3''] @
        [OnOffer ''alice'' (Some local_offer)])) ''alice'' =
     [SetRemote local_offer, SetLocal local_answer,
      AddCandidate ''c1'', AddCandidate ''c2'', AddCandidate ''c3'']"
proof -
  let ?s = "fst (match_found (provider ''bob'') ''alice'')"
  have h: "has (allowedPairs ?s) ''alice''"
    by (simp add: match_found_def shouldCreateOffer_def provider_def has_def)
  have n: "map_of (peerConnections ?s) ''alice'' = None" "pendingFor ?s ''alice'' = []"
    "dtype local_offer = Some OfferT"
    by (simp_all add: match_found_def shouldCreateOffer_def provider_def pendingFor_def
        local_offer_def)
  from pending_candidates_flushed_in_order [OF h, of local_offer "[''c1'', ''c2'', ''c3'']"] n h
  show ?thesis by simp
qed

subsection \<open>Who makes the offer\<close>

lemma match_found_offerer:
  assumes "socketId s < peerId" and "map_of (peerConnections s) peerId = None"
  shows "snd (match_found s peerId) = [Emit (SendOffer peerId (Some local_offer))]"
    "appliedTo (fst (match_found s peerId)) peerId = [SetLocal local_offer]"
  using assms
  by (simp_all add: match_found_def shouldCreateOffer_def Let_def getOrCreatePeerConnection_def
      store_def new_RTCPeerConnection_def createOffer_def setLocalDescription_def
      local_offer_def appliedTo_def update_conv')

lemma match_found_answerer:
  assumes "\<not> socketId s < peerId"
  shows "snd (match_found s peerId) = []"
    "peerConnections (fst (match_found s peerId)) = peerConnections s"
    "pendingCandidates (fst (match_found s peerId)) = pendingCandidates s"
    "has (allowedPairs (fst (match_found s peerId))) peerId"
  using assms
  by (simp_all add: match_found_def shouldCreateOffer_def Let_def has_keys keys_update)

lemma offerer_then_answer:
  assumes "socketId sa < socketId sb"
    and "map_of (peerConnections sa) (socketId sb) = None"
    and "map_of (peerConnections sb) (socketId sa) = None"
  shows "snd (match_found sa (socketId sb)) = [Emit (SendOffer (socketId sb) (Some local_offer))] \<and>
         snd (match_found sb (socketId sa)) = [] \<and>
         snd (webrtc_offer (fst (match_found sb (socketId sa))) (socketId sa) (Some local_offer)) =
           [Emit (SendAnswer (socketId sa) (Some local_answer))]"
proof -
  from assms(1) have n: "\<not> socketId sb < socketId sa" by simp
  let ?sb = "fst (match_found sb (socketId sa))"
  from match_found_answerer [OF n] assms(3)
  have "has (allowedPairs ?sb) (socketId sa)" "map_of (peerConnections ?sb) (socketId sa) = None"
    by simp_all
  then have "snd (webrtc_offer ?sb (socketId sa) (Some local_offer)) =
           [Emit (SendAnswer (socketId sa) (Some local_answer))]"
    by (rule offer_flush(1)) (simp add: local_offer_def)
  with match_found_offerer(1) [OF assms(1,2)] match_found_answerer(1) [OF n]
  show ?thesis by simp
qed

text \<open>
  Claim C2. Two providers with different ids are matched with each other and have no
  connection for each other yet. The one whose id is the smaller string emits one offer
  on \<open>match:found\<close>, the other emits nothing then and emits one answer, and no offer,
  when that offer reaches it; and one of the two ids is the smaller one.
\<close>

theorem exactly_one_offer:
  assumes "socketId sa \<noteq> socketId sb"
    and "map_of (peerConnections sa) (socketId sb) = None"
    and "map_of (peerConnections sb) (socketId sa) = None"
  shows
   "(socketId sa < socketId sb \<longrightarrow>
       snd (match_found sa (socketId sb)) = [Emit (SendOffer (socketId sb) (Some local_offer))] \<and>
       snd (match_found sb (socketId sa)) = [] \<and>
       snd (webrtc_offer (fst (match_found sb (socketId sa))) (socketId sa) (Some local_offer)) =
         [Emit (SendAnswer (socketId sa) (Some local_answer))]) \<and>
    (socketId sb < socketId sa \<longrightarrow>
       snd (match_found sb (socketId sa)) = [Emit (SendOffer (socketId sa) (Some local_offer))] \<and>
       snd (match_found sa (socketId sb)) = [] \<and>
       snd (webrtc_offer (fst (match_found sa (socketId sb))) (socketId sb) (Some local_offer)) =
         [Emit (SendAnswer (socketId sb) (Some local_answer))]) \<and>
    (socketId sa < socketId sb \<or> socketId sb < socketId sa)"
  using assms offerer_then_answer [of sa sb] offerer_then_answer [of sb sa]
  by auto

theorem exactly_one_offer_witness:
  "socketId (provider ''alice'') \<noteq> socketId (provider ''bob'') \<and>
   socketId (provider ''alice'') < socketId (provider ''bob'') \<and>
   snd (match_found (provider ''alice'') ''bob'') = [Emit (SendOffer ''bob'' (Some local_offer))] \<and>
   snd (match_found (provider ''bob'') ''alice'') = [] \<and>
   snd (webrtc_offer (fst (match_found (provider ''bob'') ''alice'')) ''alice'' (Some local_offer)) =
     [Emit (SendAnswer ''alice'' (Some local_answer))]"
  using exactly_one_offer [of "provider ''alice''" "provider ''bob''"]
  by (simp add: provider_def)

section \<open>Properties of the second provider\<close>

subsection \<open>Ending the chat\<close>

lemma endChat_state:
  assumes "\<not> isEnding r"
  shows "fst (endChat r s) =
      s\<lparr>remoteStream := (case remoteStream r of None \<Rightarrow> remoteStream s | Some x \<Rightarrow> None),
        remoteVideoRef := (case remoteVideoRef s of None \<Rightarrow> None | Some src \<Rightarrow> Some None),
        remoteStreamTimeout := None,
        peerConnection := (case peerConnection r of None \<Rightarrow> peerConnection s | Some pc \<Rightarrow> None),
        pendingCandidates_vc := [],
        isChatting := False, isSearching_vc := False, error := None, isEnding := False\<rparr>"
  using assms
  by (auto simp: endChat_def cleanupPeerConnection_vc_def Let_def
      split: option.splits prod.splits)

lemma endChat_effects:
  assumes "\<not> isEnding r"
  shows "snd (endChat r s) =
      (if socket_vc r \<and> isConnected_vc r then [EmitMatchCancel] else []) @
      (case remoteStream r of None \<Rightarrow> [] | Some x \<Rightarrow> [TracksStopped x]) @
      (case remoteStreamTimeout s of None \<Rightarrow> [] | Some t \<Rightarrow> [TimeoutCleared t]) @
      (case peerConnection r of None \<Rightarrow> [] | Some pc \<Rightarrow> [PeerConnectionClosed])"
  using assms
  by (auto simp: endChat_def cleanupPeerConnection_vc_def Let_def
      split: option.splits prod.splits)

lemma endChat_not_ending:
  assumes "\<not> isEnding s"
  shows "fst (endChat s s) =
      s\<lparr>remoteStream := None,
        remoteVideoRef := (case remoteVideoRef s of None \<Rightarrow> None | Some src \<Rightarrow> Some None),
        remoteStreamTimeout := None, peerConnection := None, pendingCandidates_vc := [],
        isChatting := False, isSearching_vc := False, error := None, isEnding := False\<rparr>"
    and "snd (endChat s s) =
      (if socket_vc s \<and> isConnected_vc s then [EmitMatchCancel] else []) @
      (case remoteStream s of None \<Rightarrow> [] | Some r \<Rightarrow> [TracksStopped r]) @
      (case remoteStreamTimeout s of None \<Rightarrow> [] | Some t \<Rightarrow> [TimeoutCleared t]) @
      (case peerConnection s of None \<Rightarrow> [] | Some pc \<Rightarrow> [PeerConnectionClosed])"
  using assms
  by (auto simp: endChat_def cleanupPeerConnection_vc_def Let_def
      split: option.splits prod.splits)

text \<open>
  The test of \<open>isEnding\<close> stops no call: a call that runs leaves the flag false, and
  a call that is stopped leaves it as it was, so that from a state with the flag false
  no render ever holds it true.
\<close>

lemma endChat_isEnding:
  "isEnding (fst (endChat r s)) = (isEnding r \<and> isEnding s)"
  by (auto simp: endChat_def cleanupPeerConnection_vc_def Let_def
      split: option.splits prod.splits)

text \<open>
  A second call from the same render runs the whole teardown again: the same tracks are
  stopped and the same connection is closed once more, for every state the first call
  may have left; the state it leaves is the state after one call.
\<close>

lemma endChat_twice_same_render:
  assumes "\<not> isEnding r"
  shows "fst (endChat r (fst (endChat r r))) = fst (endChat r r)"
    and "snd (endChat r (fst (endChat r r))) =
      (if socket_vc r \<and> isConnected_vc r then [EmitMatchCancel] else []) @
      (case remoteStream r of None \<Rightarrow> [] | Some x \<Rightarrow> [TracksStopped x]) @
      (case peerConnection r of None \<Rightarrow> [] | Some pc \<Rightarrow> [PeerConnectionClosed])"
  unfolding endChat_state [OF assms] endChat_effects [OF assms]
  by (auto split: option.splits)

text \<open>
  When the component has rendered between the two calls, the second call reads what the
  first has set: it stops no track and closes no connection.
\<close>

lemma endChat_after_render:
  assumes "\<not> isEnding s"
  shows "fst (endChat (fst (endChat s s)) (fst (endChat s s))) = fst (endChat s s)"
    and "snd (endChat (fst (endChat s s)) (fst (endChat s s))) =
      (if socket_vc s \<and> isConnected_vc s then [EmitMatchCancel] else [])"
proof -
  let ?t = "fst (endChat s s)"
  have t: "\<not> isEnding ?t"
    using assms by (simp add: endChat_isEnding)
  show "fst (endChat ?t ?t) = ?t"
    unfolding endChat_not_ending(1) [OF t]
    unfolding endChat_not_ending(1) [OF assms]
    by (auto split: option.splits)
  show "snd (endChat ?t ?t) = (if socket_vc s \<and> isConnected_vc s then [EmitMatchCancel] else [])"
    unfolding endChat_not_ending(2) [OF t]
    unfolding endChat_not_ending(1) [OF assms]
    by (auto split: option.splits)
qed

text \<open>
  Claim C9. In the chat \<open>chatting_vc\<close>, \<open>endChat\<close> is called twice in immediate
  succession, that is twice from the render of \<open>chatting_vc\<close>. The first call emits
  \<open>match:cancel\<close>, stops the tracks, clears the timer and closes the connection, and
  leaves the connection, the pending candidates and the remote stream cleared and both
  flags false. The second call leaves that state as it is, but it is not coalesced with
  the first: \<open>isEnding\<close> of its render is false, it stops the tracks again and it closes
  the connection a second time.
\<close>

theorem endChat_twice_closes_twice:
  "\<not> isEnding chatting_vc \<and>
   snd (endChat chatting_vc chatting_vc) =
     [EmitMatchCancel, TracksStopped ''remote'', TimeoutCleared 1, PeerConnectionClosed] \<and>
   peerConnection (fst (endChat chatting_vc chatting_vc)) = None \<and>
   pendingCandidates_vc (fst (endChat chatting_vc chatting_vc)) = [] \<and>
   remoteStream (fst (endChat chatting_vc chatting_vc)) = None \<and>
   \<not> isSearching_vc (fst (endChat chatting_vc chatting_vc)) \<and>
   \<not> isChatting (fst (endChat chatting_vc chatting_vc)) \<and>
   \<not> isEnding (fst (endChat chatting_vc chatting_vc)) \<and>
   fst (endChat chatting_vc (fst (endChat chatting_vc chatting_vc))) =
     fst (endChat chatting_vc chatting_vc) \<and>
   snd (endChat chatting_vc (fst (endChat chatting_vc chatting_vc))) =
     [EmitMatchCancel, TracksStopped ''remote'', PeerConnectionClosed] \<and>
   count_list
     (snd (endChat chatting_vc chatting_vc) @
      snd (endChat chatting_vc (fst (endChat chatting_vc chatting_vc))))
     PeerConnectionClosed = 2"
proof -
  have e: "\<not> isEnding chatting_vc"
    by (simp add: chatting_vc_def)
  have f: "snd (endChat chatting_vc chatting_vc) =
     [EmitMatchCancel, TracksStopped ''remote'', TimeoutCleared 1, PeerConnectionClosed]"
    unfolding endChat_effects [OF e] by (simp add: chatting_vc_def)
  have g: "snd (endChat chatting_vc (fst (endChat chatting_vc chatting_vc))) =
     [EmitMatchCancel, TracksStopped ''remote'', PeerConnectionClosed]"
    unfolding endChat_twice_same_render(2) [OF e] by (simp add: chatting_vc_def)
  have h: "peerConnection (fst (endChat chatting_vc chatting_vc)) = None \<and>
   pendingCandidates_vc (fst (endChat chatting_vc chatting_vc)) = [] \<and>
   remoteStream (fst (endChat chatting_vc chatting_vc)) = None \<and>
   \<not> isSearching_vc (fst (endChat chatting_vc chatting_vc)) \<and>
   \<not> isChatting (fst (endChat chatting_vc chatting_vc)) \<and>
   \<not> isEnding (fst (endChat chatting_vc chatting_vc))"
    unfolding endChat_state [OF e] by (simp add: chatting_vc_def)
  from e f g h endChat_twice_same_render(1) [OF e] show ?thesis
    by simp
qed

subsection \<open>Candidates and the sender in the second provider\<close>

text \<open>
  With the transport's \<open>addIceCandidate\<close> for the missing helper, the second provider
  buffers and flushes candidates like the first. Its handlers never look at the sender.
\<close>

lemma addEach_addIceCandidate: "addEach addIceCandidate pc cs = addIceCandidates pc cs"
  by (induction cs arbitrary: pc) (simp_all split: sum.splits)

lemma handleIceCandidate_queued:
  assumes "peerConnection s = None \<or>
    (\<exists>pc. peerConnection s = Some pc \<and> remoteDescription pc = None)"
  shows "handleIceCandidate add s userId (Some c) =
    (s\<lparr>pendingCandidates_vc := pendingCandidates_vc s @ [c]\<rparr>, [])"
  using assms by (auto simp: handleIceCandidate_def)

lemma handleIceCandidate_applied:
  assumes "peerConnection s = Some pc" and "remoteDescription pc \<noteq> None"
    and "signalingState pc \<noteq> SignalingClosed"
  shows "handleIceCandidate addIceCandidate s userId (Some c) =
    (s\<lparr>peerConnection := Some (pc\<lparr>applied := applied pc @ [AddCandidate c]\<rparr>)\<rparr>, [])"
  using assms by (auto simp: handleIceCandidate_def addIceCandidate_def)

section \<open>An answer in a signaling state that expects none\<close>

lemma remote_offered_state:
  "signalingState remote_offered = HaveRemoteOffer"
  "remoteDescription remote_offered = Some local_offer"
  by (simp_all add: remote_offered_def setRemoteDescription_def new_RTCPeerConnection_def
      local_offer_def)

lemma webrtc_answer_ignored:
  assumes "map_of (peerConnections s) userId = Some pc"
    and "signalingState pc \<noteq> HaveLocalOffer"
  shows "webrtc_answer s userId answer = (s, [])"
  using assms by (simp add: webrtc_answer_def)

lemma handleAnswer_states:
  assumes "peerConnection s = Some pc" and "answer = Some d" and "dtype d = Some AnswerT"
  shows "signalingState pc = Stable \<Longrightarrow> handleAnswer add s userId answer = (s, [])"
    and "signalingState pc \<noteq> Stable \<Longrightarrow> signalingState pc \<noteq> HaveLocalOffer \<Longrightarrow>
         handleAnswer add s userId answer = endChat s s"
    and "signalingState pc = HaveLocalOffer \<Longrightarrow>
         handleAnswer add s userId answer =
           (case addEach add (pc\<lparr>signalingState := Stable, remoteDescription := Some d,
                                 applied := applied pc @ [SetRemote d]\<rparr>)
                   (pendingCandidates_vc s) of
              Inl e \<Rightarrow> endChat s s
            | Inr pc2 \<Rightarrow> (s\<lparr>peerConnection := Some pc2, pendingCandidates_vc := []\<rparr>, []))"
  using assms by (simp_all add: handleAnswer_def setRemoteDescription_def)

lemma handleAnswer_flushes:
  assumes "peerConnection s = Some pc" and "signalingState pc = HaveLocalOffer"
    and "dtype d = Some AnswerT"
  shows "handleAnswer addIceCandidate s userId (Some d) =
    (s\<lparr>peerConnection :=
         Some (pc\<lparr>signalingState := Stable, remoteDescription := Some d,
                  applied := applied pc @ [SetRemote d] @
                    map AddCandidate (pendingCandidates_vc s)\<rparr>),
       pendingCandidates_vc := []\<rparr>, [])"
  using assms
  by (simp add: handleAnswer_states(3) [OF assms(1) refl assms(3)] addEach_addIceCandidate
      addIceCandidates_ok)

lemma handlers_vc_ignore_sender:
  "handleAnswer add s userId answer = handleAnswer add s userId' answer"
  "handleIceCandidate add s userId candidate = handleIceCandidate add s userId' candidate"
  by (simp_all add: handleAnswer_def handleIceCandidate_def)

text \<open>
  Claim C4. Both providers apply an answer only in \<open>have-local-offer\<close> and ignore it in
  \<open>stable\<close>. In any other signaling state the second provider ends the chat, which
  closes the connection, as the claim says; the first provider, which handles the
  \<open>webrtc:answer\<close> that the server relays, warns and returns: in \<open>have-remote-offer\<close>
  the connection and the three maps stay as they were and nothing is closed.
\<close>

theorem webrtc_answer_wrong_state_kept:
  "has (allowedPairs answering) ''alice'' \<and>
   map_of (peerConnections answering) ''alice'' = Some remote_offered \<and>
   signalingState remote_offered = HaveRemoteOffer \<and>
   webrtc_answer answering ''alice'' (Some local_answer) = (answering, []) \<and>
   peerConnection answering_vc = Some remote_offered \<and>
   peerConnection (fst (handleAnswer addIceCandidate answering_vc ''alice'' (Some local_answer))) = None \<and>
   snd (handleAnswer addIceCandidate answering_vc ''alice'' (Some local_answer)) =
     [EmitMatchCancel, PeerConnectionClosed]"
proof -
  have m: "map_of (peerConnections answering) ''alice'' = Some remote_offered"
    by (simp add: answering_def store_def update_conv')
  have h: "has (allowedPairs answering) ''alice''"
    by (simp add: answering_def store_def match_found_def shouldCreateOffer_def provider_def
        has_def update_conv')
  have w: "webrtc_answer answering ''alice'' (Some local_answer) = (answering, [])"
    using m by (rule webrtc_answer_ignored) (simp add: remote_offered_state)
  have v: "handleAnswer addIceCandidate answering_vc ''alice'' (Some local_answer) =
      endChat answering_vc answering_vc"
    by (rule handleAnswer_states(2) [where pc = remote_offered and d = local_answer])
      (simp_all add: answering_vc_def local_answer_def remote_offered_state)
  have e: "\<not> isEnding answering_vc"
    by (simp add: answering_vc_def)
  from m h w show ?thesis
    unfolding v endChat_not_ending(1) [OF e] endChat_not_ending(2) [OF e]
    by (simp add: remote_offered_state) (simp add: answering_vc_def)
qed

end
